theory Spec2Isabelle
  imports Main "HOL-Library.Word"
begin

unbundle bit_operations_syntax

section \<open>The pair manager of the broad-phase collision detection\<close>

text \<open>
  A shallow embedding of \<^verbatim>\<open>src/collision/broadphase/PairManager.h\<close>: the structure
  \<^verbatim>\<open>BodyPair\<close> and the inline methods of the class \<^verbatim>\<open>PairManager\<close>, but for
  \<^verbatim>\<open>computePairOffset\<close>, whose pointer arithmetic the slot indices of this model
  replace. The methods that the header declares and does not define are modelled from
  the specification, each under a note that says so.
\<close>

subsection \<open>Integer types\<close>

text \<open>
  The header uses the typedefs \<^verbatim>\<open>uint\<close>, \<^verbatim>\<open>luint\<close>, \<^verbatim>\<open>bodyindex\<close> and
  \<^verbatim>\<open>bodyindexpair\<close> of the library's configuration header. They are taken here
  on an LP64 target: \<^verbatim>\<open>uint\<close> is \<^verbatim>\<open>unsigned int\<close> (32 bits), \<^verbatim>\<open>luint\<close> is
  \<^verbatim>\<open>long unsigned int\<close> (64 bits), \<^verbatim>\<open>bodyindex\<close> is \<^verbatim>\<open>luint\<close> and
  \<^verbatim>\<open>bodyindexpair\<close> is a \<^verbatim>\<open>std::pair\<close> of two \<^verbatim>\<open>bodyindex\<close>. The \<^verbatim>\<open>int\<close> of
  \<^verbatim>\<open>computeHash32Bits\<close> is a 32-bit two's complement word: \<open>+\<close> wraps, \<^verbatim>\<open><<\<close> drops
  the bits shifted out and \<^verbatim>\<open>>>\<close> is the arithmetic shift.
\<close>

type_synonym uint = "32 word"
type_synonym luint = "64 word"
type_synonym bodyindex = "64 word"
type_synonym bodyindexpair = "bodyindex \<times> bodyindex"

subsection \<open>Bodies and pairs of bodies\<close>

text \<open>
  A \<^verbatim>\<open>BodyPair\<close> holds two pointers to collision bodies. The header reads nothing of
  a body but \<^verbatim>\<open>getID()\<close>, so a body is the record of its identifier.
\<close>

record CollisionBody =
  getID :: bodyindex

record BodyPair =
  body1 :: CollisionBody
  body2 :: CollisionBody

text \<open>An \<^verbatim>\<open>assert\<close> that fails aborts the program: it is the error of a result.\<close>

datatype failure = AssertionFailed

text \<open>\<^verbatim>\<open>BodyPair::getBodiesIndexPair\<close> (lines 51 to 60).\<close>

definition getBodiesIndexPair :: "BodyPair \<Rightarrow> failure + bodyindexpair" where
  "getBodiesIndexPair p =
     (let indexPair = (if getID (body1 p) < getID (body2 p)
                       then (getID (body1 p), getID (body2 p))
                       else (getID (body2 p), getID (body1 p)))
      in if fst indexPair \<noteq> snd indexPair then Inr indexPair else Inl AssertionFailed)"

subsection \<open>Hashing and ordering\<close>

text \<open>\<^verbatim>\<open>PairManager::computeHash32Bits\<close> (lines 249 to 257), Thomas Wang's mix.\<close>

definition computeHash32Bits :: "32 word \<Rightarrow> 32 word" where
  "computeHash32Bits key0 =
     (let key1 = key0 + NOT (push_bit 15 key0);
          key2 = key1 XOR signed_drop_bit 10 key1;
          key3 = key2 + push_bit 3 key2;
          key4 = key3 XOR signed_drop_bit 6 key3;
          key5 = key4 + NOT (push_bit 11 key4);
          key6 = key5 XOR signed_drop_bit 16 key5
      in key6)"

text \<open>
  The argument that \<^verbatim>\<open>computeHashBodies\<close> hands to the mix, \<^verbatim>\<open>id1 | (id2 << 16)\<close>
  (line 204), under a name of its own.
\<close>

definition combineIDs :: "uint \<Rightarrow> uint \<Rightarrow> uint" where
  "combineIDs id1 id2 = id1 OR push_bit 16 id2"

text \<open>\<^verbatim>\<open>PairManager::computeHashBodies\<close> (lines 203 to 205).\<close>

definition computeHashBodies :: "uint \<Rightarrow> uint \<Rightarrow> uint" where
  "computeHashBodies id1 id2 = computeHash32Bits (combineIDs id1 id2)"

text \<open>
  \<^verbatim>\<open>PairManager::sortIDs\<close> (lines 237 to 243) swaps its two reference parameters in
  place; the model returns the two identifiers after the call.
\<close>

definition sortIDs :: "bodyindex \<Rightarrow> bodyindex \<Rightarrow> bodyindex \<times> bodyindex" where
  "sortIDs id1 id2 = (if id1 > id2 then (id2, id1) else (id1, id2))"

text \<open>\<^verbatim>\<open>PairManager::sortBodiesUsingID\<close> (lines 224 to 234), in the same way.\<close>

definition sortBodiesUsingID :: "CollisionBody \<Rightarrow> CollisionBody \<Rightarrow> CollisionBody \<times> CollisionBody" where
  "sortBodiesUsingID b1 b2 = (if getID b1 > getID b2 then (b2, b1) else (b1, b2))"

text \<open>\<^verbatim>\<open>PairManager::isDifferentPair\<close> (lines 208 to 211).\<close>

definition isDifferentPair :: "BodyPair \<Rightarrow> bodyindex \<Rightarrow> bodyindex \<Rightarrow> bool" where
  "isDifferentPair pair1 pair2ID1 pair2ID2 =
     (pair2ID1 \<noteq> getID (body1 pair1) \<or> pair2ID2 \<noteq> getID (body2 pair1))"

text \<open>\<^verbatim>\<open>PairManager::computeNextPowerOfTwo\<close> (lines 214 to 221).\<close>

definition computeNextPowerOfTwo :: "luint \<Rightarrow> luint" where
  "computeNextPowerOfTwo number0 =
     (let number1 = number0 OR drop_bit 1 number0;
          number2 = number1 OR drop_bit 2 number1;
          number3 = number2 OR drop_bit 4 number2;
          number4 = number3 OR drop_bit 8 number3;
          number5 = number4 OR drop_bit 16 number4
      in number5 + 1)"

subsection \<open>The state of a pair manager\<close>

text \<open>
  The attributes of the class (lines 77 to 95). \<^verbatim>\<open>mHashTable\<close> is \<open>None\<close> while the
  pointer is \<^verbatim>\<open>NULL\<close>, and the array of buckets otherwise. \<^verbatim>\<open>mOverlappingPairs\<close> is
  \<open>None\<close> while the pointer is \<^verbatim>\<open>NULL\<close>, and otherwise the written slots of the array
  of pairs, in the order of the slots; a slot past them holds nothing that may be read.
  \<^verbatim>\<open>mOffsetNextPair\<close>, a pointer that the header neither tests nor returns, is the
  written slots of its array. The reference to the collision detection, which only
  receives the callbacks, is left out.
\<close>

record PairManager =
  mNbElementsHashTable :: bodyindex
  mHashMask :: uint
  mNbOverlappingPairs :: bodyindex
  mHashTable :: "bodyindex list option"
  mOffsetNextPair :: "bodyindex list"
  mOverlappingPairs :: "BodyPair list option"

text \<open>The written slots of the array of pairs: none while the array is \<^verbatim>\<open>NULL\<close>.\<close>

definition writtenPairs :: "PairManager \<Rightarrow> BodyPair list" where
  "writtenPairs m = (case mOverlappingPairs m of None \<Rightarrow> [] | Some pairs \<Rightarrow> pairs)"

text \<open>
  A \<^verbatim>\<open>BodyPair*\<close> that a method returns: the null pointer; the address of slot \<open>i\<close> of
  an allocated array of pairs; or the null pointer advanced by \<open>i > 0\<close> slots, which is
  the address of no pair. \<open>pairAddress\<close> is the expression \<^verbatim>\<open>&mOverlappingPairs[i]\<close>:
  the pointer \<^verbatim>\<open>mOverlappingPairs\<close> advanced by \<open>i\<close> slots, so that slot 0 of an array
  that was never allocated has the null address.
\<close>

datatype BodyPairPtr = NULL | PairAt nat | NullPlus nat

definition pairAddress :: "PairManager \<Rightarrow> nat \<Rightarrow> BodyPairPtr" where
  "pairAddress m i =
     (case mOverlappingPairs m of
        Some pairs \<Rightarrow> PairAt i
      | None \<Rightarrow> if i = 0 then NULL else NullPlus i)"

text \<open>
  What a call of a method with a result type gives its caller: the value of the
  \<^verbatim>\<open>return\<close> statement it ran, or no value when control reached the closing brace of
  the body without one.
\<close>

datatype 'a returned = Returns 'a | NoReturnValue

text \<open>
  Modelled from the spec: \<^verbatim>\<open>INVALID_INDEX\<close> is declared in the header (line 98) and
  defined elsewhere. The spec's sentinel is "a reserved integer value (larger than any
  valid array index)": the largest \<^verbatim>\<open>bodyindex\<close>.
\<close>

definition INVALID_INDEX :: bodyindex where
  "INVALID_INDEX = - 1"

text \<open>
  Modelled from the spec: \<^verbatim>\<open>lookForAPair\<close> is declared in the header (line 139) and
  defined elsewhere. The spec's lookup "walks the chain starting at the bucket head
  comparing each candidate's normalized IDs; returns the first exact match or not
  found". \<open>walkChain\<close> is the walk: it stops with \<open>None\<close> when it would read a slot that
  was never written, and when its fuel is used up. A chain that visits more slots than
  there are is a cycle, so \<open>lookForAPair\<close> gives the walk one step more than there are
  slots, and \<open>None\<close> is a walk that reads out of range or never ends.
\<close>

fun walkChain :: "nat \<Rightarrow> BodyPair list \<Rightarrow> bodyindex list \<Rightarrow> bodyindex \<Rightarrow> bodyindex \<Rightarrow> bodyindex
    \<Rightarrow> BodyPairPtr option" where
  "walkChain 0 pairs nexts id1 id2 offset = None"
| "walkChain (Suc fuel) pairs nexts id1 id2 offset =
     (if offset = INVALID_INDEX then Some NULL
      else if length pairs \<le> unat offset \<or> length nexts \<le> unat offset then None
      else if isDifferentPair (pairs ! unat offset) id1 id2
        then walkChain fuel pairs nexts id1 id2 (nexts ! unat offset)
      else Some (PairAt (unat offset)))"

definition lookForAPair :: "PairManager \<Rightarrow> bodyindex \<Rightarrow> bodyindex \<Rightarrow> luint \<Rightarrow> BodyPairPtr option" where
  "lookForAPair m id1 id2 hashValue =
     (case mHashTable m of
        None \<Rightarrow> None
      | Some table \<Rightarrow>
          if length table \<le> unat hashValue then None
          else walkChain (Suc (length (mOffsetNextPair m))) (writtenPairs m)
                 (mOffsetNextPair m) id1 id2 (table ! unat hashValue))"

subsection \<open>Lookup\<close>

text \<open>
  \<^verbatim>\<open>PairManager::findPair\<close> (lines 260 to 273). The first statement returns
  \<^verbatim>\<open>NULL\<close>. The last statement (line 272) calls \<^verbatim>\<open>lookForAPair\<close> and is not a
  \<^verbatim>\<open>return\<close>: the call is made, its value goes nowhere, and the body ends.
  \<open>findPairLookup\<close> is that call with its arguments, lines 266 to 272.
\<close>

definition findPairLookup :: "PairManager \<Rightarrow> bodyindex \<Rightarrow> bodyindex \<Rightarrow> BodyPairPtr option" where
  "findPairLookup m id1 id2 =
     (let (id1', id2') = sortIDs id1 id2;
          hashValue = computeHashBodies (ucast id1') (ucast id2') AND mHashMask m
      in lookForAPair m id1' id2' (ucast hashValue))"

definition findPair :: "PairManager \<Rightarrow> bodyindex \<Rightarrow> bodyindex \<Rightarrow> BodyPairPtr returned option" where
  "findPair m id1 id2 =
     (if mHashTable m = None then Some (Returns NULL)
      else case findPairLookup m id1 id2 of
             None \<Rightarrow> None
           | Some found \<Rightarrow> Some NoReturnValue)"

text \<open>\<^verbatim>\<open>PairManager::findPairWithHashValue\<close> (lines 278 to 286).\<close>

definition findPairWithHashValue :: "PairManager \<Rightarrow> bodyindex \<Rightarrow> bodyindex \<Rightarrow> luint
    \<Rightarrow> BodyPairPtr returned option" where
  "findPairWithHashValue m id1 id2 hashValue =
     (if mHashTable m = None then Some (Returns NULL)
      else map_option Returns (lookForAPair m id1 id2 hashValue))"

subsection \<open>Iteration\<close>

text \<open>
  \<^verbatim>\<open>PairManager::getNbOverlappingPairs\<close> (lines 198 to 200) is the field
  \<open>mNbOverlappingPairs\<close>. \<^verbatim>\<open>beginOverlappingPairsPointer\<close> (lines 308 to 310) and
  \<^verbatim>\<open>endOverlappingPairsPointer\<close> (lines 314 to 321) take the address of a slot and read
  nothing.
\<close>

definition beginOverlappingPairsPointer :: "PairManager \<Rightarrow> BodyPairPtr" where
  "beginOverlappingPairsPointer m = pairAddress m 0"

definition endOverlappingPairsPointer :: "PairManager \<Rightarrow> BodyPairPtr" where
  "endOverlappingPairsPointer m =
     (if mNbOverlappingPairs m > 0 then pairAddress m (unat (mNbOverlappingPairs m - 1))
      else pairAddress m 0)"

subsection \<open>Resizing\<close>

text \<open>
  The bucket of a stored pair: the hash of its two identifiers under a mask, as
  \<^verbatim>\<open>findPair\<close> computes it at line 269.
\<close>

definition bucketOf :: "uint \<Rightarrow> BodyPair \<Rightarrow> nat" where
  "bucketOf hashMask p =
     unat (computeHashBodies (ucast (getID (body1 p))) (ucast (getID (body2 p))) AND hashMask)"

text \<open>
  Modelled from the spec: \<^verbatim>\<open>reallocatePairs\<close> is declared in the header (line 130) and
  defined elsewhere. The spec has the bucket index "reallocated (and every entry
  rehashed) whenever the dense store's capacity changes", a resize "create a new buffer,
  move valid entries, rehash", and a linked entry "becomes the new head; former head
  becomes its next". \<open>rehash\<close> links the valid entries in the order of their slots; it
  gives \<open>None\<close> when a bucket lies outside the new table.
\<close>

fun rehash :: "uint \<Rightarrow> BodyPair list \<Rightarrow> nat \<Rightarrow> bodyindex list \<Rightarrow> bodyindex list
    \<Rightarrow> (bodyindex list \<times> bodyindex list) option" where
  "rehash hashMask [] i table nexts = Some (table, nexts)"
| "rehash hashMask (p # ps) i table nexts =
     (if length table \<le> bucketOf hashMask p then None
      else rehash hashMask ps (Suc i) (table[bucketOf hashMask p := word_of_nat i])
             (nexts @ [table ! bucketOf hashMask p]))"

definition reallocatePairs :: "PairManager \<Rightarrow> PairManager option" where
  "reallocatePairs m =
     (let pairs = take (unat (mNbOverlappingPairs m)) (writtenPairs m)
      in case rehash (mHashMask m) pairs 0
                (replicate (unat (mNbElementsHashTable m)) INVALID_INDEX) [] of
           None \<Rightarrow> None
         | Some (table, nexts) \<Rightarrow>
             Some (m\<lparr>mHashTable := Some table, mOffsetNextPair := nexts,
                     mOverlappingPairs := Some pairs\<rparr>))"

text \<open>\<^verbatim>\<open>PairManager::shrinkMemory\<close> (lines 289 to 299).\<close>

definition shrinkMemory :: "PairManager \<Rightarrow> PairManager option" where
  "shrinkMemory m =
     (let correctNbElementsHashTable = computeNextPowerOfTwo (mNbOverlappingPairs m)
      in if mNbElementsHashTable m = correctNbElementsHashTable then Some m
         else reallocatePairs
                (m\<lparr>mNbElementsHashTable := correctNbElementsHashTable,
                   mHashMask := ucast (correctNbElementsHashTable - 1)\<rparr>))"

text \<open>
  The capacity law in the spec's words, "the smallest power of two \<open>\<ge>\<close> count":
  \<open>powerOfTwoFrom p n\<close> doubles \<open>p\<close> until it reaches \<open>n\<close>.
\<close>

function powerOfTwoFrom :: "nat \<Rightarrow> nat \<Rightarrow> nat" where
  "powerOfTwoFrom p n = (if n \<le> p \<or> p = 0 then p else powerOfTwoFrom (2 * p) n)"
  by pat_completeness auto
termination
  by (relation "measure (\<lambda>(p, n). n - p)") auto

definition smallestPowerOfTwoAtLeast :: "nat \<Rightarrow> nat" where
  "smallestPowerOfTwoAtLeast n = powerOfTwoFrom 1 n"

text \<open>
  The invariant of the bucket index in the spec's words: "Size is always a power of two;
  mask = size - 1". The comparison of the 32-bit mask with the 64-bit size converts the
  mask to 64 bits.
\<close>

definition isPowerOfTwo :: "bodyindex \<Rightarrow> bool" where
  "isPowerOfTwo n = (\<exists>k \<in> {0..<64}. n = 2 ^ k)"

definition bucketIndexInvariant :: "PairManager \<Rightarrow> bool" where
  "bucketIndexInvariant m =
     (isPowerOfTwo (mNbElementsHashTable m) \<and>
      ucast (mHashMask m) = mNbElementsHashTable m - 1)"

subsection \<open>Adding and removing pairs\<close>

text \<open>
  Modelled from the spec: the constructor, \<^verbatim>\<open>addPair\<close>, \<^verbatim>\<open>removePair\<close> and
  \<^verbatim>\<open>removePairWithHashValue\<close> are declared in the header (lines 153, 162, 165 and 145)
  and defined elsewhere. The callbacks are not part of the state and are left out. A
  result \<open>None\<close> is a call that does not end well: a contract violation, a read or a
  write outside the written slots or the table, or a walk that never ends.

  The arrays are "allocated lazily on first insertion": the three pointers of a new
  manager are \<^verbatim>\<open>NULL\<close>.
\<close>

definition emptyManager :: PairManager where
  "emptyManager =
     \<lparr>mNbElementsHashTable = 0, mHashMask = 0, mNbOverlappingPairs = 0,
      mHashTable = None, mOffsetNextPair = [], mOverlappingPairs = None\<rparr>"

text \<open>
  Modelled from the spec: the growth step of \<^verbatim>\<open>addPair\<close>. "Growth policy: capacity
  must be the smallest power of two \<open>\<ge>\<close> count + 1; when growth occurs, the bucket index
  size also changes to the same capacity."
\<close>

definition ensureCapacity :: "PairManager \<Rightarrow> PairManager option" where
  "ensureCapacity m =
     (if mNbOverlappingPairs m < mNbElementsHashTable m then Some m
      else let capacity = word_of_nat (smallestPowerOfTwoAtLeast (unat (mNbOverlappingPairs m) + 1))
           in reallocatePairs (m\<lparr>mNbElementsHashTable := capacity,
                                  mHashMask := ucast (capacity - 1)\<rparr>))"

text \<open>
  Modelled from the spec: \<^verbatim>\<open>addPair\<close>.
  "If an equal pair already exists, returns it unchanged. Otherwise: ensure capacity;
  append the new, canonically-ordered record at the current count position; link it to
  the head of its bucket's chain (new entry becomes the new head; former head becomes
  its next); increment count." The precondition is that the two bodies have different
  identifiers.
\<close>

definition addPair :: "PairManager \<Rightarrow> CollisionBody \<Rightarrow> CollisionBody
    \<Rightarrow> (PairManager \<times> BodyPairPtr) option" where
  "addPair m bodyA bodyB =
     (if getID bodyA = getID bodyB then None
      else
        let (b1, b2) = sortBodiesUsingID bodyA bodyB;
            newPair = \<lparr>body1 = b1, body2 = b2\<rparr>;
            hashValue = bucketOf (mHashMask m) newPair
        in case findPairWithHashValue m (getID b1) (getID b2) (word_of_nat hashValue) of
             None \<Rightarrow> None
           | Some NoReturnValue \<Rightarrow> None
           | Some (Returns (PairAt i)) \<Rightarrow> Some (m, PairAt i)
           | Some (Returns (NullPlus i)) \<Rightarrow> None
           | Some (Returns NULL) \<Rightarrow>
               (case ensureCapacity m of
                  None \<Rightarrow> None
                | Some m1 \<Rightarrow>
                    (case mHashTable m1 of
                       None \<Rightarrow> None
                     | Some table \<Rightarrow>
                         let h = bucketOf (mHashMask m1) newPair;
                             n = mNbOverlappingPairs m1
                         in if length table \<le> h
                               \<or> length (writtenPairs m1) \<noteq> unat n
                               \<or> length (mOffsetNextPair m1) \<noteq> unat n
                            then None
                            else Some (m1\<lparr>mNbOverlappingPairs := n + 1,
                                         mHashTable := Some (table[h := n]),
                                         mOffsetNextPair := mOffsetNextPair m1 @ [table ! h],
                                         mOverlappingPairs := Some (writtenPairs m1 @ [newPair])\<rparr>,
                                       PairAt (unat n)))))"

text \<open>
  Modelled from the spec: the repair of a chain in a removal. The link of a chain that
  holds a slot is the head of the bucket, or the \<open>next\<close> of the slot before it, which
  \<open>findPredecessor\<close> looks for from the head. \<open>retargetLink\<close> makes that link hold
  another slot.
\<close>

fun findPredecessor :: "nat \<Rightarrow> bodyindex list \<Rightarrow> bodyindex \<Rightarrow> bodyindex \<Rightarrow> bodyindex option" where
  "findPredecessor 0 nexts offset target = None"
| "findPredecessor (Suc fuel) nexts offset target =
     (if offset = INVALID_INDEX \<or> length nexts \<le> unat offset then None
      else if nexts ! unat offset = target then Some offset
      else findPredecessor fuel nexts (nexts ! unat offset) target)"

definition retargetLink :: "bodyindex list \<Rightarrow> bodyindex list \<Rightarrow> nat \<Rightarrow> bodyindex \<Rightarrow> bodyindex
    \<Rightarrow> (bodyindex list \<times> bodyindex list) option" where
  "retargetLink table nexts h old new =
     (if length table \<le> h then None
      else if table ! h = old then Some (table[h := new], nexts)
      else case findPredecessor (Suc (length nexts)) nexts (table ! h) old of
             None \<Rightarrow> None
           | Some previous \<Rightarrow> Some (table, nexts[unat previous := new]))"

text \<open>
  Modelled from the spec: \<^verbatim>\<open>removePairWithHashValue\<close>.
  "Splicing the found entry out (predecessor's next becomes the found entry's next; if
  the found entry was the bucket head, the bucket head becomes its next). Compaction:
  the last record (count - 1) is moved into the vacated slot (unless the vacated slot
  was already last), and the bucket chain entry that referenced the old last-slot index
  must be retargeted to the new index. Decrement count."
\<close>

definition removePairWithHashValue :: "PairManager \<Rightarrow> bodyindex \<Rightarrow> bodyindex \<Rightarrow> luint \<Rightarrow> bodyindex
    \<Rightarrow> PairManager option" where
  "removePairWithHashValue m id1 id2 hashValue indexPair =
     (case mHashTable m of
        None \<Rightarrow> None
      | Some table \<Rightarrow>
          let nexts = mOffsetNextPair m;
              pairs = writtenPairs m;
              n = mNbOverlappingPairs m;
              last = n - 1
          in if n \<le> indexPair \<or> length pairs \<noteq> unat n \<or> length nexts \<noteq> unat n then None
             else case retargetLink table nexts (unat hashValue) indexPair
                         (nexts ! unat indexPair) of
                    None \<Rightarrow> None
                  | Some (table1, nexts1) \<Rightarrow>
                      if indexPair = last
                      then Some (m\<lparr>mNbOverlappingPairs := last,
                                   mHashTable := Some table1,
                                   mOffsetNextPair := butlast nexts1,
                                   mOverlappingPairs := Some (butlast pairs)\<rparr>)
                      else case retargetLink table1
                                  (nexts1[unat indexPair := nexts1 ! unat last])
                                  (bucketOf (mHashMask m) (pairs ! unat last)) last indexPair of
                             None \<Rightarrow> None
                           | Some (table2, nexts2) \<Rightarrow>
                               Some (m\<lparr>mNbOverlappingPairs := last,
                                       mHashTable := Some table2,
                                       mOffsetNextPair := butlast nexts2,
                                       mOverlappingPairs :=
                                         Some (butlast (pairs[unat indexPair := pairs ! unat last]))\<rparr>))"

text \<open>
  Modelled from the spec: \<^verbatim>\<open>removePair\<close>.
  "Normalizes IDs, computes bucket and hash, locates the record via chain traversal.
  Returns false (no-op, no callback) if the pair does not exist." The shrink after a
  removal is a policy choice of the spec and is not part of this model.
\<close>

definition removePair :: "PairManager \<Rightarrow> bodyindex \<Rightarrow> bodyindex \<Rightarrow> (PairManager \<times> bool) option" where
  "removePair m id1 id2 =
     (let (id1', id2') = sortIDs id1 id2;
          hashValue = computeHashBodies (ucast id1') (ucast id2') AND mHashMask m
      in case findPairWithHashValue m id1' id2' (ucast hashValue) of
           None \<Rightarrow> None
         | Some NoReturnValue \<Rightarrow> None
         | Some (Returns NULL) \<Rightarrow> Some (m, False)
         | Some (Returns (NullPlus i)) \<Rightarrow> None
         | Some (Returns (PairAt i)) \<Rightarrow>
             map_option (\<lambda>m'. (m', True))
               (removePairWithHashValue m id1' id2' (ucast hashValue) (word_of_nat i)))"

text \<open>
  Modelled from the spec: the round trip "add each then remove each". A sequence of
  additions and a sequence of removals, each stopping at the first call that does not
  end well.
\<close>

fun addPairs :: "PairManager \<Rightarrow> (CollisionBody \<times> CollisionBody) list \<Rightarrow> PairManager option" where
  "addPairs m [] = Some m"
| "addPairs m ((bodyA, bodyB) # rest) =
     (case addPair m bodyA bodyB of
        None \<Rightarrow> None
      | Some (m', added) \<Rightarrow> addPairs m' rest)"

fun removePairs :: "PairManager \<Rightarrow> (bodyindex \<times> bodyindex) list \<Rightarrow> PairManager option" where
  "removePairs m [] = Some m"
| "removePairs m ((id1, id2) # rest) =
     (case removePair m id1 id2 of
        None \<Rightarrow> None
      | Some (m', removed) \<Rightarrow> removePairs m' rest)"

subsection \<open>A consumer of the two pointers\<close>

text \<open>
  The header has no loop over the exposed pointers. A consumer steps a pointer from the
  first one to the last one and reads the record at each step. \<open>recordsUpTo\<close> is what
  it reads when it stops before the last pointer, and \<open>recordsThrough\<close> what it reads
  when it reads at the last pointer too; \<open>None\<close> is a walk that reads at an address
  that is not a written slot of the array of pairs.
\<close>

definition recordsUpTo :: "PairManager \<Rightarrow> BodyPairPtr \<Rightarrow> BodyPairPtr \<Rightarrow> BodyPair list option" where
  "recordsUpTo m firstPair lastPair =
     (if firstPair = lastPair then Some []
      else case (firstPair, lastPair, mOverlappingPairs m) of
             (PairAt i, PairAt j, Some pairs) \<Rightarrow>
               if i \<le> j \<and> j \<le> length pairs then Some (map (\<lambda>k. pairs ! k) [i..<j]) else None
           | _ \<Rightarrow> None)"

definition recordsThrough :: "PairManager \<Rightarrow> BodyPairPtr \<Rightarrow> BodyPairPtr \<Rightarrow> BodyPair list option" where
  "recordsThrough m firstPair lastPair =
     (case (firstPair, lastPair, mOverlappingPairs m) of
        (PairAt i, PairAt j, Some pairs) \<Rightarrow>
          if i \<le> j \<and> j < length pairs then Some (map (\<lambda>k. pairs ! k) [i..<Suc j]) else None
      | _ \<Rightarrow> None)"

subsection \<open>Four states\<close>

text \<open>
  A manager that holds the pair \<open>(1, 2)\<close> in a table of two buckets; a manager that holds
  four pairs in a table of eight buckets, as after five additions and one removal; the
  same four pairs in a table of four buckets; and a manager whose arrays are allocated
  and which holds no pair, as after one addition and one removal. The buckets are those of
  \<open>bucketOf\<close>: under the mask 7 the pairs \<open>(1, 7)\<close>, \<open>(2, 3)\<close>, \<open>(1, 3)\<close> and \<open>(4, 5)\<close>
  hash to 3, 6, 2 and 5.
\<close>

definition managerOnePair :: PairManager where
  "managerOnePair =
     \<lparr>mNbElementsHashTable = 2, mHashMask = 1, mNbOverlappingPairs = 1,
      mHashTable = Some [0, INVALID_INDEX], mOffsetNextPair = [INVALID_INDEX],
      mOverlappingPairs = Some [\<lparr>body1 = \<lparr>getID = 1\<rparr>, body2 = \<lparr>getID = 2\<rparr>\<rparr>]\<rparr>"

definition managerFourPairs :: PairManager where
  "managerFourPairs =
     \<lparr>mNbElementsHashTable = 8, mHashMask = 7, mNbOverlappingPairs = 4,
      mHashTable = Some [INVALID_INDEX, INVALID_INDEX, 2, 0, INVALID_INDEX, 3, 1, INVALID_INDEX],
      mOffsetNextPair = [INVALID_INDEX, INVALID_INDEX, INVALID_INDEX, INVALID_INDEX],
      mOverlappingPairs = Some
        [\<lparr>body1 = \<lparr>getID = 1\<rparr>, body2 = \<lparr>getID = 7\<rparr>\<rparr>,
         \<lparr>body1 = \<lparr>getID = 2\<rparr>, body2 = \<lparr>getID = 3\<rparr>\<rparr>,
         \<lparr>body1 = \<lparr>getID = 1\<rparr>, body2 = \<lparr>getID = 3\<rparr>\<rparr>,
         \<lparr>body1 = \<lparr>getID = 4\<rparr>, body2 = \<lparr>getID = 5\<rparr>\<rparr>]\<rparr>"

definition managerFourPairsFull :: PairManager where
  "managerFourPairsFull =
     \<lparr>mNbElementsHashTable = 4, mHashMask = 3, mNbOverlappingPairs = 4,
      mHashTable = Some [INVALID_INDEX, 3, 2, 0],
      mOffsetNextPair = [INVALID_INDEX, INVALID_INDEX, 1, INVALID_INDEX],
      mOverlappingPairs = Some
        [\<lparr>body1 = \<lparr>getID = 1\<rparr>, body2 = \<lparr>getID = 7\<rparr>\<rparr>,
         \<lparr>body1 = \<lparr>getID = 2\<rparr>, body2 = \<lparr>getID = 3\<rparr>\<rparr>,
         \<lparr>body1 = \<lparr>getID = 1\<rparr>, body2 = \<lparr>getID = 3\<rparr>\<rparr>,
         \<lparr>body1 = \<lparr>getID = 4\<rparr>, body2 = \<lparr>getID = 5\<rparr>\<rparr>]\<rparr>"

definition managerEmptied :: PairManager where
  "managerEmptied =
     \<lparr>mNbElementsHashTable = 1, mHashMask = 0, mNbOverlappingPairs = 0,
      mHashTable = Some [INVALID_INDEX], mOffsetNextPair = [], mOverlappingPairs = Some []\<rparr>"

section \<open>Self-pairs\<close>

text \<open>
  Claim C7. \<^verbatim>\<open>getBodiesIndexPair\<close> returns the two identifiers, smaller first, for
  every pair of bodies with distinct identifiers, and its assertion fails exactly when
  the two identifiers are equal.
\<close>

theorem getBodiesIndexPair_self_pair:
  "getBodiesIndexPair p =
     (if getID (body1 p) = getID (body2 p) then Inl AssertionFailed
      else Inr (min (getID (body1 p)) (getID (body2 p)), max (getID (body1 p)) (getID (body2 p))))"
  by (auto simp: getBodiesIndexPair_def Let_def min_def max_def)

text \<open>
  The model of \<^verbatim>\<open>addPair\<close>, which follows the spec's precondition, does not end well
  on a body paired with itself.
\<close>

lemma addPair_self_pair: "getID bodyA = getID bodyB \<Longrightarrow> addPair m bodyA bodyB = None"
  by (simp add: addPair_def)

section \<open>Lookup before the table exists\<close>

text \<open>
  Claim C8. While the hash table has never been allocated (\<^verbatim>\<open>mHashTable\<close> is
  \<^verbatim>\<open>NULL\<close>), \<^verbatim>\<open>findPair\<close> returns \<^verbatim>\<open>NULL\<close> for every two identifiers. The method is
  \<^verbatim>\<open>const\<close>: its model has no state to return.
\<close>

theorem findPair_never_allocated:
  "mHashTable m = None \<Longrightarrow> findPair m id1 id2 = Some (Returns NULL)"
  by (simp add: findPair_def)

theorem findPair_never_allocated_witness:
  "mHashTable emptyManager = None \<and> findPair emptyManager 5 9 = Some (Returns NULL)"
proof -
  have h: "mHashTable emptyManager = None" by (simp add: emptyManager_def)
  show ?thesis using h findPair_never_allocated [OF h, of 5 9] by simp
qed

section \<open>Symmetry of the lookup\<close>

lemma sortIDs_swap: "sortIDs b a = sortIDs a b"
  by (auto simp: sortIDs_def)

text \<open>
  \<^verbatim>\<open>sortIDs\<close> maps both orders of two identifiers to the same ordered pair, smaller
  first, so \<^verbatim>\<open>findPair(a, b)\<close> and \<^verbatim>\<open>findPair(b, a)\<close> make the same lookup, with the
  same hash, bucket and identifiers.
\<close>

lemma findPairLookup_symmetric:
  "sortIDs a b = (min a b, max a b) \<and> sortIDs b a = sortIDs a b \<and>
   findPairLookup m b a = findPairLookup m a b"
proof -
  have "sortIDs a b = (min a b, max a b)"
    by (auto simp: sortIDs_def min_def max_def)
  moreover have "findPairLookup m b a = findPairLookup m a b"
    by (simp add: findPairLookup_def sortIDs_swap [of a b])
  ultimately show ?thesis by (simp add: sortIDs_swap)
qed

text \<open>
  Claim C3. On the manager that holds four pairs, \<^verbatim>\<open>sortIDs\<close> maps \<open>(2, 3)\<close> and
  \<open>(3, 2)\<close> to the same ordered pair, and the lookups of \<^verbatim>\<open>findPair(2, 3)\<close> and of
  \<^verbatim>\<open>findPair(3, 2)\<close> both find the record in slot 1, which
  \<^verbatim>\<open>findPairWithHashValue\<close> returns for the bucket 6 of the pair; but each of the two
  calls of \<^verbatim>\<open>findPair\<close> reaches the end of its body without a \<^verbatim>\<open>return\<close> statement,
  so neither gives its caller the record.
\<close>

theorem findPair_both_orders_return_nothing:
  "sortIDs 2 3 = (2, 3) \<and> sortIDs 3 2 = (2, 3)
   \<and> findPairLookup managerFourPairs 2 3 = Some (PairAt 1)
   \<and> findPairLookup managerFourPairs 3 2 = Some (PairAt 1)
   \<and> findPairWithHashValue managerFourPairs 2 3 6 = Some (Returns (PairAt 1))
   \<and> findPair managerFourPairs 2 3 = Some NoReturnValue
   \<and> findPair managerFourPairs 3 2 = Some NoReturnValue"
  by code_simp

section \<open>The 32-bit key of a pair\<close>

lemma computeHashBodies_key:
  "computeHashBodies id1 id2 = computeHash32Bits (id1 OR push_bit 16 id2)
   \<and> combineIDs id1 id2 = id1 OR push_bit 16 id2"
  by (simp add: computeHashBodies_def combineIDs_def)

lemma combineIDs_low:
  assumes "id1 < 2 ^ 16"
  shows "take_bit 16 (combineIDs id1 id2) = id1"
proof -
  from assms have e: "take_bit 16 id1 = id1"
    by (simp add: take_bit_eq_mask less_mask_eq)
  have "take_bit 16 (combineIDs (take_bit 16 id1) id2) = take_bit 16 id1"
    unfolding combineIDs_def by (rule bit_word_eqI) (auto simp: bit_simps)
  then show ?thesis by (simp add: e)
qed

lemma combineIDs_high:
  assumes "id1 < 2 ^ 16" "id2 < 2 ^ 16"
  shows "drop_bit 16 (combineIDs id1 id2) = id2"
proof -
  from assms have e: "take_bit 16 id1 = id1" "take_bit 16 id2 = id2"
    by (simp_all add: take_bit_eq_mask less_mask_eq)
  have "drop_bit 16 (combineIDs (take_bit 16 id1) (take_bit 16 id2)) = take_bit 16 id2"
    unfolding combineIDs_def by (rule bit_word_eqI) (auto simp: bit_simps)
  then show ?thesis by (simp add: e)
qed

text \<open>
  Claim C10. On identifiers below \<open>2 ^ 16\<close> the key \<^verbatim>\<open>id1 | (id2 << 16)\<close> that
  \<^verbatim>\<open>computeHashBodies\<close> hands to the mix is injective: equal keys come from equal
  pairs.
\<close>

theorem combineIDs_injective:
  assumes "id1 < 2 ^ 16" "id2 < 2 ^ 16" "id1' < 2 ^ 16" "id2' < 2 ^ 16"
    and "combineIDs id1 id2 = combineIDs id1' id2'"
  shows "id1 = id1' \<and> id2 = id2'"
proof
  from assms(5) have "take_bit 16 (combineIDs id1 id2) = take_bit 16 (combineIDs id1' id2')"
    by simp
  with assms(1,3) show "id1 = id1'" by (simp add: combineIDs_low)
next
  from assms(5) have "drop_bit 16 (combineIDs id1 id2) = drop_bit 16 (combineIDs id1' id2')"
    by simp
  with assms(1-4) show "id2 = id2'" by (simp add: combineIDs_high)
qed

theorem combineIDs_injective_witness:
  "(3 :: uint) < 2 ^ 16 \<and> (5 :: uint) < 2 ^ 16 \<and> combineIDs 3 5 = combineIDs 3 5
   \<and> combineIDs 3 5 = 327683 \<and> (3 :: uint) = 3 \<and> (5 :: uint) = 5
   \<and> combineIDs 3 5 \<noteq> combineIDs 5 3"
proof -
  have a: "(3 :: uint) < 2 ^ 16" and b: "(5 :: uint) < 2 ^ 16" by simp_all
  have c: "combineIDs 3 5 = combineIDs 3 5" by simp
  have d: "combineIDs 3 5 = 327683" by (simp add: combineIDs_def)
  have e: "combineIDs 3 5 \<noteq> combineIDs 5 3"
    using combineIDs_injective [OF a b b a] by auto
  show ?thesis using a b c d e combineIDs_injective [OF a b a b c] by simp
qed

text \<open>
  Past 16 bits the key does collide: the pairs \<open>(2 ^ 16, 0)\<close> and \<open>(0, 1)\<close> have the same
  key, and the high bits of the second identifier are shifted out.
\<close>

lemma combineIDs_collides_past_16_bits:
  "combineIDs (2 ^ 16) 0 = combineIDs 0 1 \<and> combineIDs 1 (2 ^ 16) = combineIDs 1 0"
  by (simp add: combineIDs_def)

section \<open>The next power of two\<close>

text \<open>
  Each step of \<^verbatim>\<open>computeNextPowerOfTwo\<close> doubles the window of bits that reach a
  position: after \<open>x |= x >> c\<close>, bit \<open>i\<close> is set when one of the \<open>2 * c\<close> bits of the
  argument from \<open>i\<close> upwards is.
\<close>

lemma or_drop_bit_window:
  fixes x n :: "'a::len word"
  assumes "\<And>i. bit x i \<longleftrightarrow> (\<exists>j<c. bit n (i + j))"
  shows "bit (x OR drop_bit c x) i \<longleftrightarrow> (\<exists>j<2 * c. bit n (i + j))"
proof -
  have "bit (x OR drop_bit c x) i \<longleftrightarrow> bit x i \<or> bit x (c + i)"
    by (simp add: bit_or_iff bit_drop_bit_eq)
  also have "\<dots> \<longleftrightarrow> (\<exists>j<c. bit n (i + j)) \<or> (\<exists>j<c. bit n (c + i + j))"
    by (simp only: assms)
  also have "\<dots> \<longleftrightarrow> (\<exists>j<2 * c. bit n (i + j))"
  proof
    assume "(\<exists>j<c. bit n (i + j)) \<or> (\<exists>j<c. bit n (c + i + j))"
    then show "\<exists>j<2 * c. bit n (i + j)"
    proof
      assume "\<exists>j<c. bit n (i + j)"
      then obtain j where "j < c" "bit n (i + j)" by blast
      then have "j < 2 * c \<and> bit n (i + j)" by simp
      then show ?thesis by blast
    next
      assume "\<exists>j<c. bit n (c + i + j)"
      then obtain j where "j < c" "bit n (c + i + j)" by blast
      then have "c + j < 2 * c \<and> bit n (i + (c + j))" by (simp add: ac_simps)
      then show ?thesis by blast
    qed
  next
    assume "\<exists>j<2 * c. bit n (i + j)"
    then obtain j where j: "j < 2 * c" "bit n (i + j)" by blast
    show "(\<exists>j<c. bit n (i + j)) \<or> (\<exists>j<c. bit n (c + i + j))"
    proof (cases "j < c")
      case True
      with j show ?thesis by blast
    next
      case False
      with j have "j - c < c \<and> bit n (c + i + (j - c))" by (simp add: ac_simps)
      then show ?thesis by blast
    qed
  qed
  finally show ?thesis .
qed

lemma smear_window:
  "bit (computeNextPowerOfTwo n - 1) i \<longleftrightarrow> (\<exists>j<32. bit n (i + j))"
proof -
  define n1 where "n1 = n OR drop_bit 1 n"
  define n2 where "n2 = n1 OR drop_bit 2 n1"
  define n3 where "n3 = n2 OR drop_bit 4 n2"
  define n4 where "n4 = n3 OR drop_bit 8 n3"
  define n5 where "n5 = n4 OR drop_bit 16 n4"
  have w0: "\<And>i. bit n i \<longleftrightarrow> (\<exists>j<1. bit n (i + j))" by simp
  have w1: "\<And>i. bit n1 i \<longleftrightarrow> (\<exists>j<2. bit n (i + j))"
    unfolding n1_def using or_drop_bit_window [OF w0] by simp
  have w2: "\<And>i. bit n2 i \<longleftrightarrow> (\<exists>j<4. bit n (i + j))"
    unfolding n2_def using or_drop_bit_window [OF w1] by simp
  have w3: "\<And>i. bit n3 i \<longleftrightarrow> (\<exists>j<8. bit n (i + j))"
    unfolding n3_def using or_drop_bit_window [OF w2] by simp
  have w4: "\<And>i. bit n4 i \<longleftrightarrow> (\<exists>j<16. bit n (i + j))"
    unfolding n4_def using or_drop_bit_window [OF w3] by simp
  have w5: "\<And>i. bit n5 i \<longleftrightarrow> (\<exists>j<32. bit n (i + j))"
    unfolding n5_def using or_drop_bit_window [OF w4] by simp
  have "computeNextPowerOfTwo n - 1 = n5"
    by (simp add: computeNextPowerOfTwo_def Let_def n1_def n2_def n3_def n4_def n5_def)
  then show ?thesis by (simp add: w5)
qed

lemma bit_unat_word: "bit (unat (n :: 'a::len word)) j \<longleftrightarrow> bit n j"
  by (auto simp: bit_unsigned_iff dest: bit_imp_le_length)

lemma upper_bits_clear:
  fixes n :: "'a::len word"
  assumes "unat n < 2 ^ k" "k \<le> j"
  shows "\<not> bit n j"
proof -
  have "(2::nat) ^ k \<le> 2 ^ j" using assms(2) by (simp add: power_increasing)
  with assms(1) have "unat n < 2 ^ j" by linarith
  then have "unat n div 2 ^ j = 0" by simp
  then have "\<not> bit (unat n) j" by (simp add: bit_iff_odd)
  then show ?thesis by (simp add: bit_unat_word)
qed

lemma top_bit_set:
  fixes n :: "'a::len word"
  assumes "unat n < 2 ^ Suc k" "2 ^ k \<le> unat n"
  shows "bit n k"
proof -
  have "unat n div 2 ^ k < 2"
    using assms(1) by (simp add: less_mult_imp_div_less)
  moreover have "0 < unat n div 2 ^ k"
    using assms(2) by (simp add: div_greater_zero_iff)
  ultimately have "unat n div 2 ^ k = 1" by linarith
  then have "bit (unat n) k" by (simp add: bit_iff_odd)
  then show ?thesis by (simp add: bit_unat_word)
qed

lemma smear_eq_mask:
  assumes lt: "unat n < 2 ^ k" and ge: "k = 0 \<or> 2 ^ (k - 1) \<le> unat n" and k: "k \<le> 32"
  shows "computeNextPowerOfTwo n - 1 = mask k"
proof (rule bit_word_eqI)
  fix i assume i: "i < LENGTH(64)"
  have "(\<exists>j<32. bit n (i + j)) \<longleftrightarrow> i < k"
  proof
    assume "\<exists>j<32. bit n (i + j)"
    then obtain j where "bit n (i + j)" by blast
    with upper_bits_clear [OF lt, of "i + j"] have "i + j < k" by (cases "k \<le> i + j") auto
    then show "i < k" by simp
  next
    assume ik: "i < k"
    then obtain k' where k': "k = Suc k'" by (cases k) auto
    with lt ge have "bit n k'" by (auto intro: top_bit_set)
    moreover have "k' - i < 32 \<and> i + (k' - i) = k'" using ik k k' by simp
    ultimately have "k' - i < 32 \<and> bit n (i + (k' - i))" by simp
    then show "\<exists>j<32. bit n (i + j)" by blast
  qed
  with i k show "bit (computeNextPowerOfTwo n - 1) i \<longleftrightarrow> bit (mask k :: 64 word) i"
    by (simp add: smear_window bit_mask_iff)
qed

text \<open>
  For a number below \<open>2 ^ 32\<close> whose highest set bit is bit \<open>k - 1\<close> (and for 0, with
  \<open>k = 0\<close>), \<^verbatim>\<open>computeNextPowerOfTwo\<close> returns \<open>2 ^ k\<close>.
\<close>

lemma computeNextPowerOfTwo_exp:
  assumes "unat n < 2 ^ k" "k = 0 \<or> 2 ^ (k - 1) \<le> unat n" "k \<le> 32"
  shows "computeNextPowerOfTwo n = 2 ^ k"
proof -
  have "computeNextPowerOfTwo n - 1 = 2 ^ k - 1"
    using smear_eq_mask [OF assms] by (simp add: mask_eq_exp_minus_1)
  then show ?thesis by simp
qed

text \<open>The function of the spec's words gives the smallest power of two from \<open>n\<close> on.\<close>

lemma powerOfTwoFrom_exp:
  "i = 0 \<or> 2 ^ (i - 1) < n \<Longrightarrow>
   \<exists>k. powerOfTwoFrom (2 ^ i) n = 2 ^ k \<and> n \<le> 2 ^ k \<and> (k = 0 \<or> 2 ^ (k - 1) < n)"
proof (induction "(2::nat) ^ i" n arbitrary: i rule: powerOfTwoFrom.induct)
  case (1 n)
  show ?case
  proof (cases "n \<le> 2 ^ i")
    case True
    then have "powerOfTwoFrom (2 ^ i) n = 2 ^ i" by simp
    with True "1.prems" show ?thesis by blast
  next
    case False
    then have step: "powerOfTwoFrom (2 ^ i) n = powerOfTwoFrom (2 ^ Suc i) n" by simp
    from False have "Suc i = 0 \<or> 2 ^ (Suc i - 1) < n" by simp
    with "1.hyps" [of "Suc i"] False
    have "\<exists>k. powerOfTwoFrom (2 ^ Suc i) n = 2 ^ k \<and> n \<le> 2 ^ k \<and> (k = 0 \<or> 2 ^ (k - 1) < n)"
      by simp
    with step show ?thesis by simp
  qed
qed

lemma smallestPowerOfTwoAtLeast_exp:
  "\<exists>k. smallestPowerOfTwoAtLeast n = 2 ^ k \<and> n \<le> 2 ^ k \<and> (k = 0 \<or> 2 ^ (k - 1) < n)"
  using powerOfTwoFrom_exp [of 0 n] by (simp add: smallestPowerOfTwoAtLeast_def)

lemma smallestPowerOfTwoAtLeast_correct:
  "(\<exists>k. smallestPowerOfTwoAtLeast n = 2 ^ k) \<and> n \<le> smallestPowerOfTwoAtLeast n \<and>
   (\<forall>j. n \<le> 2 ^ j \<longrightarrow> smallestPowerOfTwoAtLeast n \<le> 2 ^ j)"
proof -
  obtain k where k: "smallestPowerOfTwoAtLeast n = 2 ^ k" "n \<le> 2 ^ k" "k = 0 \<or> 2 ^ (k - 1) < n"
    using smallestPowerOfTwoAtLeast_exp by blast
  have "(2::nat) ^ k \<le> 2 ^ j" if "n \<le> 2 ^ j" for j
  proof (cases "k \<le> j")
    case True
    then show ?thesis by (simp add: power_increasing)
  next
    case False
    then have "j \<le> k - 1" "k \<noteq> 0" by simp_all
    then have "(2::nat) ^ j \<le> 2 ^ (k - 1)" by (simp add: power_increasing)
    moreover from k(3) \<open>k \<noteq> 0\<close> have "2 ^ (k - 1) < n" by simp
    ultimately have "2 ^ j < n" by linarith
    with that show ?thesis by simp
  qed
  with k show ?thesis by auto
qed

text \<open>
  Below \<open>2 ^ 32\<close>, \<^verbatim>\<open>computeNextPowerOfTwo(n)\<close> is the smallest power of two from
  \<open>n + 1\<close> on: the smallest one strictly greater than \<open>n\<close>.
\<close>

lemma computeNextPowerOfTwo_spec:
  assumes "unat n < 2 ^ 32"
  obtains k where "k \<le> 32" "smallestPowerOfTwoAtLeast (unat n + 1) = 2 ^ k"
    "computeNextPowerOfTwo n = 2 ^ k"
proof -
  obtain k where k: "smallestPowerOfTwoAtLeast (unat n + 1) = 2 ^ k" "unat n + 1 \<le> 2 ^ k"
    "k = 0 \<or> 2 ^ (k - 1) < unat n + 1"
    using smallestPowerOfTwoAtLeast_exp by blast
  have lt: "unat n < 2 ^ k" using k(2) by simp
  have ge: "k = 0 \<or> 2 ^ (k - 1) \<le> unat n" using k(3) by auto
  have k32: "k \<le> 32"
  proof (rule ccontr)
    assume "\<not> k \<le> 32"
    then have "32 \<le> k - 1" "k \<noteq> 0" by simp_all
    then have "(2::nat) ^ 32 \<le> 2 ^ (k - 1)" by (simp only: power_increasing one_le_numeral)
    moreover from ge \<open>k \<noteq> 0\<close> have "2 ^ (k - 1) \<le> unat n" by simp
    ultimately show False using assms by linarith
  qed
  from that [OF k32 k(1) computeNextPowerOfTwo_exp [OF lt ge k32]] show ?thesis .
qed

section \<open>The capacity after a resize\<close>

lemma and_mask_in_range:
  fixes h hashMask :: uint and capacity :: bodyindex
  assumes "capacity \<noteq> 0" "unat hashMask \<le> unat (capacity - 1)"
  shows "unat (h AND hashMask) < unat capacity"
proof -
  have "h AND hashMask \<le> hashMask" by (rule word_and_le1)
  then have "unat (h AND hashMask) \<le> unat hashMask" by (simp add: word_le_nat_alt)
  also note assms(2)
  also have "unat (capacity - 1) < unat capacity"
    using assms(1) by (simp add: unat_minus_one unat_gt_0)
  finally show ?thesis .
qed

lemma unat_ucast_down_le: "unat (ucast (w :: 64 word) :: 32 word) \<le> unat w"
  by (simp add: unsigned_ucast_eq take_bit_nat_less_eq_self)

lemma unat_ucast_up: "unat (ucast (w :: 32 word) :: 64 word) = unat w"
proof -
  have "unat w < 2 ^ 32" using unsigned_less [of w] by simp
  then have "unat w < 2 ^ 64" by simp
  then show ?thesis by (simp add: unsigned_ucast_eq take_bit_nat_eq_self_iff)
qed

lemma ucast_down_up_mask:
  assumes "k \<le> 32"
  shows "(ucast (ucast (2 ^ k - 1 :: 64 word) :: 32 word) :: 64 word) = 2 ^ k - 1"
proof -
  have "(ucast (ucast (mask k :: 64 word) :: 32 word) :: 64 word) = mask k"
    using assms by (intro bit_word_eqI) (auto simp: bit_simps)
  then show ?thesis by (simp add: mask_eq_exp_minus_1)
qed

lemma unat_exp_64:
  assumes "k \<le> 32"
  shows "unat (2 ^ k :: 64 word) = 2 ^ k"
proof -
  have "(2::nat) ^ k \<le> 2 ^ 32" using assms by (simp only: power_increasing one_le_numeral)
  then have "(2::nat) ^ k < 2 ^ 64" by simp
  moreover have "(2 ^ k :: 64 word) = word_of_nat (2 ^ k)" by simp
  ultimately show ?thesis
    by (simp only: unat_of_nat take_bit_nat_eq_self_iff [symmetric] take_bit_eq_mod [symmetric]
        len_bit0 len_num1 mult_1_right) simp
qed

lemma rehash_Some:
  assumes "\<forall>p \<in> set ps. bucketOf hashMask p < length table"
  shows "\<exists>table' nexts'. rehash hashMask ps i table nexts = Some (table', nexts')
           \<and> length table' = length table \<and> length nexts' = length nexts + length ps"
  using assms
proof (induction ps arbitrary: i table nexts)
  case Nil
  then show ?case by simp
next
  case (Cons p ps)
  let ?t = "table[bucketOf hashMask p := word_of_nat i]"
  let ?n = "nexts @ [table ! bucketOf hashMask p]"
  from Cons.prems have "\<forall>q \<in> set ps. bucketOf hashMask q < length ?t" by simp
  from Cons.IH [OF this, of "Suc i" ?n]
  obtain table' nexts' where "rehash hashMask ps (Suc i) ?t ?n = Some (table', nexts')"
    "length table' = length ?t" "length nexts' = length ?n + length ps" by blast
  with Cons.prems show ?case by simp
qed

text \<open>
  A reallocation ends well when the capacity is not 0 and the mask is below it; it
  changes the three arrays only, and the new table has one bucket per unit of capacity.
\<close>

lemma reallocatePairs_Some:
  assumes "mNbElementsHashTable m \<noteq> 0"
    and "unat (mHashMask m) \<le> unat (mNbElementsHashTable m - 1)"
  shows "\<exists>table nexts. reallocatePairs m =
           Some (m\<lparr>mHashTable := Some table, mOffsetNextPair := nexts,
                   mOverlappingPairs := Some (take (unat (mNbOverlappingPairs m)) (writtenPairs m))\<rparr>)
           \<and> length table = unat (mNbElementsHashTable m)"
proof -
  let ?ps = "take (unat (mNbOverlappingPairs m)) (writtenPairs m)"
  let ?t = "replicate (unat (mNbElementsHashTable m)) INVALID_INDEX"
  have "\<forall>p \<in> set ?ps. bucketOf (mHashMask m) p < length ?t"
    using and_mask_in_range [OF assms] by (simp add: bucketOf_def)
  from rehash_Some [OF this, of 0 "[]"]
  obtain table nexts where "rehash (mHashMask m) ?ps 0 ?t [] = Some (table, nexts)"
    "length table = length ?t" by blast
  then have "reallocatePairs m =
           Some (m\<lparr>mHashTable := Some table, mOffsetNextPair := nexts,
                   mOverlappingPairs := Some ?ps\<rparr>)
           \<and> length table = unat (mNbElementsHashTable m)"
    by (simp add: reallocatePairs_def)
  then show ?thesis by blast
qed

text \<open>
  What \<^verbatim>\<open>shrinkMemory\<close> does with fewer than \<open>2 ^ 32\<close> pairs: nothing when the capacity
  is already \<open>2 ^ k\<close>, the value of \<^verbatim>\<open>computeNextPowerOfTwo\<close>; otherwise the capacity
  becomes \<open>2 ^ k\<close>, the mask \<open>2 ^ k - 1\<close>, and the arrays are reallocated.
\<close>

lemma shrinkMemory_result:
  assumes "unat (mNbOverlappingPairs m) < 2 ^ 32"
  obtains (unchanged) k where "k \<le> 32"
      "smallestPowerOfTwoAtLeast (unat (mNbOverlappingPairs m) + 1) = 2 ^ k"
      "mNbElementsHashTable m = 2 ^ k" "shrinkMemory m = Some m"
  | (resized) k table nexts where "k \<le> 32"
      "smallestPowerOfTwoAtLeast (unat (mNbOverlappingPairs m) + 1) = 2 ^ k"
      "mNbElementsHashTable m \<noteq> 2 ^ k" "length table = 2 ^ k"
      "shrinkMemory m =
         Some (m\<lparr>mNbElementsHashTable := 2 ^ k, mHashMask := ucast (2 ^ k - 1 :: bodyindex),
                 mHashTable := Some table, mOffsetNextPair := nexts,
                 mOverlappingPairs :=
                   Some (take (unat (mNbOverlappingPairs m)) (writtenPairs m))\<rparr>)"
proof -
  from computeNextPowerOfTwo_spec [OF assms]
  obtain k where k: "k \<le> 32"
    "smallestPowerOfTwoAtLeast (unat (mNbOverlappingPairs m) + 1) = 2 ^ k"
    "computeNextPowerOfTwo (mNbOverlappingPairs m) = 2 ^ k" by blast
  show ?thesis
  proof (cases "mNbElementsHashTable m = 2 ^ k")
    case True
    then have "shrinkMemory m = Some m" by (simp add: shrinkMemory_def k(3))
    from unchanged [OF k(1) k(2) True this] show ?thesis .
  next
    case False
    let ?m1 = "m\<lparr>mNbElementsHashTable := 2 ^ k, mHashMask := ucast (2 ^ k - 1 :: bodyindex)\<rparr>"
    have un: "unat (2 ^ k :: bodyindex) = 2 ^ k" using k(1) by (rule unat_exp_64)
    then have "unat (2 ^ k :: bodyindex) \<noteq> 0" by simp
    then have nz: "mNbElementsHashTable ?m1 \<noteq> 0" by (auto simp: unat_eq_zero)
    have "unat (mHashMask ?m1) \<le> unat (mNbElementsHashTable ?m1 - 1)"
      by (simp add: unat_ucast_down_le)
    from reallocatePairs_Some [OF nz this]
    obtain table nexts where r: "reallocatePairs ?m1 =
        Some (?m1\<lparr>mHashTable := Some table, mOffsetNextPair := nexts,
                 mOverlappingPairs := Some (take (unat (mNbOverlappingPairs ?m1)) (writtenPairs ?m1))\<rparr>)"
      "length table = unat (mNbElementsHashTable ?m1)" by blast
    from r(2) un have len: "length table = 2 ^ k" by simp
    from r(1) False have "shrinkMemory m =
         Some (m\<lparr>mNbElementsHashTable := 2 ^ k, mHashMask := ucast (2 ^ k - 1 :: bodyindex),
                 mHashTable := Some table, mOffsetNextPair := nexts,
                 mOverlappingPairs :=
                   Some (take (unat (mNbOverlappingPairs m)) (writtenPairs m))\<rparr>)"
      by (simp add: shrinkMemory_def k(3) Let_def writtenPairs_def)
    from resized [OF k(1) k(2) False len this] show ?thesis .
  qed
qed

text \<open>
  Claim C2, as amended. With fewer than \<open>2 ^ 32\<close> overlapping pairs, \<^verbatim>\<open>shrinkMemory\<close>
  ends with \<^verbatim>\<open>mNbElementsHashTable\<close>, the capacity of the dense store and of the
  bucket index, equal to the smallest power of two that is at least the number of pairs
  plus one, that is, strictly greater than the number of pairs. It changes nothing
  when the capacity already has that value; otherwise the mask becomes the capacity
  minus one and the new bucket index has that many buckets.
\<close>

theorem shrinkMemory_capacity:
  assumes "unat (mNbOverlappingPairs m) < 2 ^ 32"
  shows "\<exists>m'. shrinkMemory m = Some m'
     \<and> mNbOverlappingPairs m' = mNbOverlappingPairs m
     \<and> unat (mNbElementsHashTable m') =
         smallestPowerOfTwoAtLeast (unat (mNbOverlappingPairs m) + 1)
     \<and> (\<exists>k. unat (mNbElementsHashTable m') = 2 ^ k)
     \<and> unat (mNbOverlappingPairs m) < unat (mNbElementsHashTable m')
     \<and> (\<forall>j. unat (mNbOverlappingPairs m) < 2 ^ j \<longrightarrow> unat (mNbElementsHashTable m') \<le> 2 ^ j)
     \<and> (unat (mNbElementsHashTable m) =
           smallestPowerOfTwoAtLeast (unat (mNbOverlappingPairs m) + 1)
         \<longrightarrow> m' = m)
     \<and> (unat (mNbElementsHashTable m) \<noteq>
           smallestPowerOfTwoAtLeast (unat (mNbOverlappingPairs m) + 1)
         \<longrightarrow> mHashMask m' = ucast (mNbElementsHashTable m' - 1)
           \<and> (\<exists>table. mHashTable m' = Some table
                 \<and> length table = unat (mNbElementsHashTable m')))"
proof -
  let ?n = "unat (mNbOverlappingPairs m)"
  have least: "?n < 2 ^ k \<and> (\<forall>j. ?n < 2 ^ j \<longrightarrow> (2::nat) ^ k \<le> 2 ^ j)"
    if "smallestPowerOfTwoAtLeast (?n + 1) = 2 ^ k" for k
    using smallestPowerOfTwoAtLeast_correct [of "?n + 1"] that
    by (simp add: Suc_le_eq)
  from assms show ?thesis
  proof (cases m rule: shrinkMemory_result)
    case (unchanged k)
    from unchanged(1) have un: "unat (2 ^ k :: bodyindex) = 2 ^ k" by (rule unat_exp_64)
    have "\<exists>i. (2::nat) ^ k = 2 ^ i" by blast
    with unchanged un least [OF unchanged(2)] show ?thesis by simp
  next
    case (resized k table nexts)
    from resized(1) have un: "unat (2 ^ k :: bodyindex) = 2 ^ k" by (rule unat_exp_64)
    have "unat (mNbElementsHashTable m) \<noteq> 2 ^ k"
    proof
      assume "unat (mNbElementsHashTable m) = 2 ^ k"
      with un have "unat (mNbElementsHashTable m) = unat (2 ^ k :: bodyindex)" by simp
      then have "mNbElementsHashTable m = 2 ^ k" by (rule word_unat_eq_iff [THEN iffD2])
      with resized(3) show False by simp
    qed
    moreover have "\<exists>i. (2::nat) ^ k = 2 ^ i" by blast
    ultimately show ?thesis using resized un least [OF resized(2)] by simp
  qed
qed

theorem shrinkMemory_capacity_witness:
  "unat (mNbOverlappingPairs managerFourPairsFull) < 2 ^ 32
   \<and> smallestPowerOfTwoAtLeast (unat (mNbOverlappingPairs managerFourPairsFull) + 1) = 8
   \<and> map_option (\<lambda>m'. unat (mNbElementsHashTable m')) (shrinkMemory managerFourPairsFull) = Some 8"
proof -
  have h: "unat (mNbOverlappingPairs managerFourPairsFull) < 2 ^ 32"
    by (simp add: managerFourPairsFull_def)
  have s: "smallestPowerOfTwoAtLeast (unat (mNbOverlappingPairs managerFourPairsFull) + 1) = 8"
    by code_simp
  from shrinkMemory_capacity [OF h] obtain m' where
    "shrinkMemory managerFourPairsFull = Some m'"
    "unat (mNbElementsHashTable m') =
       smallestPowerOfTwoAtLeast (unat (mNbOverlappingPairs managerFourPairsFull) + 1)"
    by blast
  with h s show ?thesis by simp
qed

text \<open>
  Claim C2 as stated fails on a number of pairs that is itself a power of two. Four
  pairs in a table of eight buckets: the smallest power of two \<open>\<ge> 4\<close> is 4, and
  \<^verbatim>\<open>shrinkMemory\<close> leaves the capacity at 8. Four pairs in a table of four buckets:
  the capacity already is the smallest power of two \<open>\<ge> 4\<close>, and \<^verbatim>\<open>shrinkMemory\<close> is
  not a no-op: it resizes to 8.
\<close>

theorem shrinkMemory_capacity_counterexample:
  "smallestPowerOfTwoAtLeast (unat (mNbOverlappingPairs managerFourPairs)) = 4
   \<and> shrinkMemory managerFourPairs = Some managerFourPairs
   \<and> mNbElementsHashTable managerFourPairs = 8
   \<and> smallestPowerOfTwoAtLeast (unat (mNbOverlappingPairs managerFourPairsFull)) = 4
   \<and> mNbElementsHashTable managerFourPairsFull = 4
   \<and> shrinkMemory managerFourPairsFull \<noteq> Some managerFourPairsFull
   \<and> map_option mNbElementsHashTable (shrinkMemory managerFourPairsFull) = Some 8"
  by code_simp

section \<open>The bucket stays inside the table\<close>

lemma isPowerOfTwo_nonzero: "isPowerOfTwo c \<Longrightarrow> c \<noteq> 0"
  by (auto simp: isPowerOfTwo_def)

text \<open>
  Claim C6. When the size of the bucket index is a power of two and the mask is the size
  minus one, the bucket \<^verbatim>\<open>computeHashBodies(id1, id2) & mHashMask\<close> is below the size
  for every two identifiers; so is the hash value that \<^verbatim>\<open>findPair\<close> hands to the
  lookup.
\<close>

theorem bucket_in_range:
  assumes "bucketIndexInvariant m"
  shows "unat (computeHashBodies id1 id2 AND mHashMask m) < unat (mNbElementsHashTable m)
    \<and> unat (ucast (computeHashBodies (ucast a) (ucast b) AND mHashMask m) :: luint)
        < unat (mNbElementsHashTable m)"
proof -
  from assms have nz: "mNbElementsHashTable m \<noteq> 0"
    by (simp add: bucketIndexInvariant_def isPowerOfTwo_nonzero)
  from assms have "unat (ucast (mHashMask m) :: luint) = unat (mNbElementsHashTable m - 1)"
    by (simp add: bucketIndexInvariant_def)
  then have le: "unat (mHashMask m) \<le> unat (mNbElementsHashTable m - 1)"
    by (simp add: unat_ucast_up)
  show ?thesis
    using and_mask_in_range [OF nz le] by (simp add: unat_ucast_up)
qed

theorem bucket_in_range_witness:
  "bucketIndexInvariant managerFourPairs
   \<and> unat (computeHashBodies 1 7 AND mHashMask managerFourPairs) = 3
   \<and> unat (mNbElementsHashTable managerFourPairs) = 8"
proof -
  have h: "bucketIndexInvariant managerFourPairs"
    by (auto simp: bucketIndexInvariant_def isPowerOfTwo_def managerFourPairs_def
        intro!: bexI [of _ 3])
  have "unat (computeHashBodies 1 7 AND mHashMask managerFourPairs) = 3" by code_simp
  moreover have "unat (mNbElementsHashTable managerFourPairs) = 8"
    by (simp add: managerFourPairs_def)
  ultimately show ?thesis using h bucket_in_range [OF h, of 1 7 1 7] by simp
qed

text \<open>
  The invariant is the one \<^verbatim>\<open>shrinkMemory\<close> leaves when it resizes with fewer than
  \<open>2 ^ 32\<close> pairs.
\<close>

lemma shrinkMemory_invariant:
  assumes "unat (mNbOverlappingPairs m) < 2 ^ 32" "shrinkMemory m = Some m'" "m' \<noteq> m"
  shows "bucketIndexInvariant m'"
  using assms(1)
proof (cases m rule: shrinkMemory_result)
  case (unchanged k)
  with assms(2,3) show ?thesis by simp
next
  case (resized k table nexts)
  from resized(1) have "k \<in> {0..<64}" by simp
  then have "isPowerOfTwo (2 ^ k)" unfolding isPowerOfTwo_def by blast
  with resized(1,5) assms(2) show ?thesis
    by (auto simp: bucketIndexInvariant_def ucast_down_up_mask)
qed

section \<open>The exposed range\<close>

lemma map_nth_upt: "k \<le> length xs \<Longrightarrow> map (\<lambda>i. xs ! i) [0..<k] = take k xs"
  by (rule nth_equalityI) simp_all

lemma pairAddress_allocated: "mOverlappingPairs m = Some pairs \<Longrightarrow> pairAddress m i = PairAt i"
  by (simp add: pairAddress_def)


text \<open>
  Claim C5, as amended. The first pointer is the address of slot 0 and the last pointer
  is the address of the last valid slot, \<open>count - 1\<close>, not of the slot after it. In every
  state that holds \<open>count > 0\<close> pairs, a consumer that walks from the first pointer
  through the last pointer, that one included, reads exactly the \<open>count\<close> records of
  the dense store, each once and in the order of the slots; a consumer that stops
  before the last pointer does not read the last record.
\<close>

theorem exposed_range:
  assumes "mOverlappingPairs m = Some pairs"
    and "0 < mNbOverlappingPairs m"
    and "length pairs = unat (mNbOverlappingPairs m)"
  shows "recordsThrough m (beginOverlappingPairsPointer m) (endOverlappingPairsPointer m)
           = Some pairs
    \<and> recordsUpTo m (beginOverlappingPairsPointer m) (endOverlappingPairsPointer m)
           = Some (butlast pairs)"
proof -
  let ?n = "unat (mNbOverlappingPairs m)"
  from assms(2) have n: "0 < ?n" by (simp add: word_less_nat_alt)
  have b: "beginOverlappingPairsPointer m = PairAt 0"
    by (simp add: beginOverlappingPairsPointer_def pairAddress_allocated [OF assms(1)])
  have e: "endOverlappingPairsPointer m = PairAt (?n - 1)"
    using assms(2)
    by (simp add: endOverlappingPairsPointer_def pairAddress_allocated [OF assms(1)]
        unat_minus_one)
  from n have suc: "Suc (?n - 1) = length pairs" by (simp add: assms(3))
  have "map (\<lambda>k. pairs ! k) [0..<Suc (?n - 1)] = pairs"
    by (simp only: suc map_nth)
  with n have through: "recordsThrough m (PairAt 0) (PairAt (?n - 1)) = Some pairs"
    by (simp add: recordsThrough_def assms(1,3))
  have "map (\<lambda>k. pairs ! k) [0..<?n - 1] = butlast pairs"
    using map_nth_upt [of "?n - 1" pairs] by (simp add: butlast_conv_take assms(3))
  then have upto: "recordsUpTo m (PairAt 0) (PairAt (?n - 1)) = Some (butlast pairs)"
    by (cases "?n - 1 = 0") (simp_all add: recordsUpTo_def assms(1,3))
  from through upto show ?thesis by (simp add: b e)
qed

theorem exposed_range_witness:
  "recordsThrough managerFourPairs (beginOverlappingPairsPointer managerFourPairs)
        (endOverlappingPairsPointer managerFourPairs)
     = Some [\<lparr>body1 = \<lparr>getID = 1\<rparr>, body2 = \<lparr>getID = 7\<rparr>\<rparr>,
             \<lparr>body1 = \<lparr>getID = 2\<rparr>, body2 = \<lparr>getID = 3\<rparr>\<rparr>,
             \<lparr>body1 = \<lparr>getID = 1\<rparr>, body2 = \<lparr>getID = 3\<rparr>\<rparr>,
             \<lparr>body1 = \<lparr>getID = 4\<rparr>, body2 = \<lparr>getID = 5\<rparr>\<rparr>]
   \<and> 0 < mNbOverlappingPairs managerFourPairs
   \<and> unat (mNbOverlappingPairs managerFourPairs) = 4"
proof -
  let ?pairs = "[\<lparr>body1 = \<lparr>getID = 1\<rparr>, body2 = \<lparr>getID = 7\<rparr>\<rparr>,
                 \<lparr>body1 = \<lparr>getID = 2\<rparr>, body2 = \<lparr>getID = 3\<rparr>\<rparr>,
                 \<lparr>body1 = \<lparr>getID = 1\<rparr>, body2 = \<lparr>getID = 3\<rparr>\<rparr>,
                 \<lparr>body1 = \<lparr>getID = 4\<rparr>, body2 = \<lparr>getID = 5\<rparr>\<rparr>]"
  have a: "mOverlappingPairs managerFourPairs = Some ?pairs"
    by (simp add: managerFourPairs_def)
  have b: "0 < mNbOverlappingPairs managerFourPairs" by (simp add: managerFourPairs_def)
  have c: "length ?pairs = unat (mNbOverlappingPairs managerFourPairs)"
    by (simp add: managerFourPairs_def)
  from exposed_range [OF a b c] b c show ?thesis by simp
qed

text \<open>
  Claim C5 as stated fails under both readings of the exposed range. Read up to the
  last pointer, the range of the manager with four pairs has three records. Read
  through the last pointer, the range of the allocated manager that holds no pair is
  slot 0, which holds no record.
\<close>

theorem exposed_range_counterexample:
  "unat (mNbOverlappingPairs managerFourPairs) = 4
   \<and> recordsUpTo managerFourPairs (beginOverlappingPairsPointer managerFourPairs)
        (endOverlappingPairsPointer managerFourPairs)
     = Some [\<lparr>body1 = \<lparr>getID = 1\<rparr>, body2 = \<lparr>getID = 7\<rparr>\<rparr>,
             \<lparr>body1 = \<lparr>getID = 2\<rparr>, body2 = \<lparr>getID = 3\<rparr>\<rparr>,
             \<lparr>body1 = \<lparr>getID = 1\<rparr>, body2 = \<lparr>getID = 3\<rparr>\<rparr>]
   \<and> unat (mNbOverlappingPairs managerEmptied) = 0
   \<and> endOverlappingPairsPointer managerEmptied = PairAt 0
   \<and> recordsThrough managerEmptied (beginOverlappingPairsPointer managerEmptied)
        (endOverlappingPairsPointer managerEmptied)
     = None"
  by code_simp

section \<open>The last pointer of small managers\<close>




section \<open>The value of a lookup\<close>

text \<open>
  Once the table is allocated, \<^verbatim>\<open>findPair\<close> never runs a \<^verbatim>\<open>return\<close> statement,
  whatever the lookup finds; \<^verbatim>\<open>findPairWithHashValue\<close>, which does the same lookup,
  returns what it finds.
\<close>

lemma findPair_allocated:
  "mHashTable m \<noteq> None \<Longrightarrow> findPair m id1 id2 \<noteq> Some (Returns r)"
  by (cases "findPairLookup m id1 id2") (auto simp: findPair_def)

lemma findPairWithHashValue_allocated:
  "mHashTable m \<noteq> None \<Longrightarrow>
   findPairWithHashValue m id1 id2 h = map_option Returns (lookForAPair m id1 id2 h)"
  by (auto simp: findPairWithHashValue_def)

text \<open>
  Claim C1. On the manager that holds the pair \<open>(1, 2)\<close>, the lookup of \<^verbatim>\<open>findPair(1, 2)\<close>
  and of \<^verbatim>\<open>findPair(2, 1)\<close> finds the record in slot 0, and the lookup of
  \<^verbatim>\<open>findPair(1, 3)\<close> finds none; in the three calls \<^verbatim>\<open>findPair\<close> reaches the end of its
  body without a \<^verbatim>\<open>return\<close> statement, so the caller gets neither the record nor
  \<^verbatim>\<open>NULL\<close>.
\<close>

theorem findPair_returns_nothing:
  "findPairLookup managerOnePair 1 2 = Some (PairAt 0)
   \<and> findPair managerOnePair 1 2 = Some NoReturnValue
   \<and> findPairLookup managerOnePair 2 1 = Some (PairAt 0)
   \<and> findPair managerOnePair 2 1 = Some NoReturnValue
   \<and> findPairLookup managerOnePair 1 3 = Some NULL
   \<and> findPair managerOnePair 1 3 = Some NoReturnValue"
  by code_simp

section \<open>Adding then removing\<close>

text \<open>
  Claim C4. Adding the pairs \<open>(1, 2)\<close>, \<open>(2, 3)\<close> and \<open>(1, 3)\<close> to the empty manager and
  removing them leaves no pair, and the lookup of each of them finds none; but
  \<^verbatim>\<open>findPair\<close> of each of them reaches the end of its body without a \<^verbatim>\<open>return\<close>
  statement, since the table has been allocated: the caller does not get \<^verbatim>\<open>NULL\<close>.
\<close>

theorem add_remove_round_trip:
  "(case addPairs emptyManager
           [(\<lparr>getID = 1\<rparr>, \<lparr>getID = 2\<rparr>), (\<lparr>getID = 2\<rparr>, \<lparr>getID = 3\<rparr>),
            (\<lparr>getID = 1\<rparr>, \<lparr>getID = 3\<rparr>)] of
      None \<Rightarrow> False
    | Some m1 \<Rightarrow>
        mNbOverlappingPairs m1 = 3 \<and>
        (case removePairs m1 [(1, 2), (2, 3), (1, 3)] of
           None \<Rightarrow> False
         | Some m2 \<Rightarrow>
             mNbOverlappingPairs m2 = 0
             \<and> map (\<lambda>(id1, id2). findPairLookup m2 id1 id2) [(1, 2), (2, 3), (1, 3)]
                 = [Some NULL, Some NULL, Some NULL]
             \<and> map (\<lambda>(id1, id2). findPair m2 id1 id2) [(1, 2), (2, 3), (1, 3)]
                 = [Some NoReturnValue, Some NoReturnValue, Some NoReturnValue]))"
  by code_simp

end
